theory Spec2Isabelle
  imports Main "HOL-Library.AList"
begin

section \<open>Data model of the transactional engine\<close>

text \<open>
  The development follows \<^verbatim>\<open>engine/agnostic/transaction.go\<close> and
  \<^verbatim>\<open>engine/agnostic/relation.go\<close>. Go pointers are references into an explicit
  store: a \<^verbatim>\<open>*Relation\<close> is a reference into \<open>heap\<close>, a \<^verbatim>\<open>*list.Element\<close>
  is a reference carried by the row it holds. A Go map that is only looked up and updated
  is a partial function or an association list read with \<open>map_of\<close>; a Go map that is
  ranged over is an association list. The order in which the runtime visits the entries
  is the order of the list for the map \<^verbatim>\<open>values\<close> of \<^verbatim>\<open>Insert\<close>, and a parameter
  (\<open>rangeOrder\<close>) for the map \<^verbatim>\<open>relations\<close> of \<^verbatim>\<open>Query\<close>.

  Values of Go type \<^verbatim>\<open>any\<close> are the type variable \<open>'v\<close>, \<^verbatim>\<open>reflect.Type\<close> is
  \<open>'d\<close>. The \<^verbatim>\<open>sync.RWMutex\<close> embedded in a Relation is concurrency state and is not
  represented: the development follows one transaction and tracks its lock table
  \<^verbatim>\<open>t.locks\<close>, which alone decides whether \<^verbatim>\<open>r.Lock()\<close> is called.
\<close>

type_synonym ref = nat

datatype error =
    SchemaMissing string
  | RelationMissing string
  | Duplicate string
  | AttributeNotDefined
  | DomainMismatch string string
  | MissingValue string string
  | AttributeMissing string string
  | PlanningError string
  | ExecError string
  | TransactionCommitted
  | TransactionAborted error

text \<open>
  The type \<^verbatim>\<open>Attribute\<close> is declared outside the two source files; the fields are those
  the source reads and writes (\<^verbatim>\<open>name\<close>, \<^verbatim>\<open>typeInstance\<close>, \<^verbatim>\<open>defaultValue\<close>,
  \<^verbatim>\<open>autoIncrement\<close>, \<^verbatim>\<open>nextValue\<close>, \<^verbatim>\<open>unique\<close>, \<^verbatim>\<open>fk\<close>). The counter
  \<^verbatim>\<open>nextValue\<close> is only incremented by one, its width is not visible in the source, so
  it is an unbounded integer here.
\<close>

record ('v, 'd) attribute =
  attr_name :: string
  typeInstance :: 'd
  defaultValue :: "(unit \<Rightarrow> 'v) option"
  autoIncrement :: bool
  nextValue :: int
  unique :: bool
  fk :: "(string \<times> string \<times> string) option"

text \<open>
  A row of a relation: the \<^verbatim>\<open>*list.Element\<close> returned by \<^verbatim>\<open>PushBack\<close> together with
  the \<^verbatim>\<open>*Tuple\<close> it holds. \<^verbatim>\<open>Insert\<close> allocates both at once, so one reference names
  the pair.
\<close>

type_synonym 'v tuple = "'v list"
type_synonym 'v row = "ref \<times> 'v tuple"

text \<open>
  Modelled from the spec: the \<^verbatim>\<open>Index\<close> interface and \<^verbatim>\<open>NewHashIndex\<close> are not in the
  source files. The spec describes an index by its descriptor (name, relation, indexed
  attributes and their positions) and by the operations add a tuple, remove a tuple and
  truncate; the content of an index is the collection of tuples added and not removed.
\<close>

record 'v index =
  idx_name :: string
  idx_relName :: string
  idx_attrs :: "string list"
  idx_positions :: "nat list"
  entries :: "'v row list"

definition NewHashIndex ::
  "string \<Rightarrow> string \<Rightarrow> ('v, 'd) attribute list \<Rightarrow> string list \<Rightarrow> nat list \<Rightarrow> 'v index" where
  "NewHashIndex nm relName attrs names positions =
     \<lparr>idx_name = nm, idx_relName = relName, idx_attrs = names,
      idx_positions = positions, entries = []\<rparr>"

definition index_Add :: "'v row \<Rightarrow> 'v index \<Rightarrow> 'v index" where
  "index_Add t idx = idx\<lparr>entries := entries idx @ [t]\<rparr>"

definition index_Remove :: "ref \<Rightarrow> 'v index \<Rightarrow> 'v index" where
  "index_Remove e idx = idx\<lparr>entries := filter (\<lambda>t. fst t \<noteq> e) (entries idx)\<rparr>"

definition index_Truncate :: "'v index \<Rightarrow> 'v index" where
  "index_Truncate idx = idx\<lparr>entries := []\<rparr>"

record ('v, 'd) relation =
  rel_name :: string
  rel_schema :: string
  attributes :: "('v, 'd) attribute list"
  attrIndex :: "string \<rightharpoonup> nat"
  pk :: "nat list"
  rows :: "'v row list"
  indexes :: "'v index list"

text \<open>
  \<^verbatim>\<open>NewRelation\<close>. The first loop leaves in \<^verbatim>\<open>attrIndex\<close> the last position of every
  attribute name; a primary key name that is no attribute reads the zero value 0 from
  the Go map.
\<close>

fun attrIndex_of :: "nat \<Rightarrow> ('v, 'd) attribute list \<Rightarrow> (string \<rightharpoonup> nat) \<Rightarrow> (string \<rightharpoonup> nat)" where
  "attrIndex_of i [] m = m"
| "attrIndex_of i (a # as) m = attrIndex_of (Suc i) as (m(attr_name a \<mapsto> i))"

fun unique_indexes ::
  "string \<Rightarrow> string \<Rightarrow> ('v, 'd) attribute list \<Rightarrow> nat \<Rightarrow> ('v, 'd) attribute list \<Rightarrow> 'v index list" where
  "unique_indexes sch nm attrs i [] = []"
| "unique_indexes sch nm attrs i (a # as) =
     (if unique a
      then NewHashIndex (''unique_'' @ sch @ ''_'' @ nm @ ''_'' @ attr_name a) nm attrs
             [attr_name a] [i] # unique_indexes sch nm attrs (Suc i) as
      else unique_indexes sch nm attrs (Suc i) as)"

definition NewRelation ::
  "string \<Rightarrow> string \<Rightarrow> ('v, 'd) attribute list \<Rightarrow> string list \<Rightarrow> ('v, 'd) relation" where
  "NewRelation sch nm attrs pkNames =
     (let ai = attrIndex_of 0 attrs Map.empty;
          pks = map (\<lambda>k. case ai k of None \<Rightarrow> 0 | Some i \<Rightarrow> i) pkNames;
          pkIdx = (if length pks \<noteq> 0
                   then [NewHashIndex (''pk_'' @ sch @ ''_'' @ nm) nm attrs pkNames pks]
                   else [])
      in \<lparr>rel_name = nm, rel_schema = sch, attributes = attrs, attrIndex = ai, pk = pks,
          rows = [], indexes = pkIdx @ unique_indexes sch nm attrs 0 attrs\<rparr>)"

text \<open>
  \<^verbatim>\<open>Relation.Attribute\<close>. A position outside the attribute slice makes Go panic; no
  relation built by \<^verbatim>\<open>NewRelation\<close> holds one. The panic is the value \<open>None\<close>.
\<close>

definition Relation_Attribute ::
  "('v, 'd) relation \<Rightarrow> string \<Rightarrow> (error + (nat \<times> ('v, 'd) attribute)) option" where
  "Relation_Attribute r nm =
     (case attrIndex r nm of
        None \<Rightarrow> Some (Inl AttributeNotDefined)
      | Some i \<Rightarrow> if i < length (attributes r) then Some (Inr (i, attributes r ! i)) else None)"

definition Truncate :: "('v, 'd) relation \<Rightarrow> ('v, 'd) relation" where
  "Truncate r = r\<lparr>indexes := map index_Truncate (indexes r), rows := []\<rparr>"

text \<open>
  Modelled from the spec: \<^verbatim>\<open>Engine\<close> and \<^verbatim>\<open>Schema\<close> are not in the source files. The
  spec gives an engine as a mapping from schema names to schemas and a schema as a
  mapping from relation names to relations, with the errors missing schema, missing
  relation and duplicate name. Relations live in \<open>heap\<close>; \<open>next_ref\<close> is the next
  unused reference.
\<close>

record ('v, 'd) engine =
  schemas :: "string \<rightharpoonup> (string \<rightharpoonup> ref)"
  heap :: "ref \<rightharpoonup> ('v, 'd) relation"
  next_ref :: ref

definition engine_schema :: "('v, 'd) engine \<Rightarrow> string \<Rightarrow> error + (string \<rightharpoonup> ref)" where
  "engine_schema e nm = (case schemas e nm of None \<Rightarrow> Inl (SchemaMissing nm) | Some s \<Rightarrow> Inr s)"

definition schema_Relation ::
  "('v, 'd) engine \<Rightarrow> (string \<rightharpoonup> ref) \<Rightarrow> string \<Rightarrow> error + (ref \<times> ('v, 'd) relation)" where
  "schema_Relation e s nm =
     (case s nm of
        None \<Rightarrow> Inl (RelationMissing nm)
      | Some rid \<Rightarrow> (case heap e rid of None \<Rightarrow> Inl (RelationMissing nm) | Some r \<Rightarrow> Inr (rid, r)))"

text \<open>
  Modelled from the spec: \<^verbatim>\<open>Engine.createRelation\<close> and \<^verbatim>\<open>Engine.dropRelation\<close> are
  not in the source files. Creation fails on a missing schema and on a duplicate name,
  builds the relation with \<^verbatim>\<open>NewRelation\<close> and registers it; dropping fails on a missing
  schema or relation and unregisters the relation. Both return the schema and the
  relation.
\<close>

definition createRelation ::
  "('v, 'd) engine \<Rightarrow> string \<Rightarrow> string \<Rightarrow> ('v, 'd) attribute list \<Rightarrow> string list
     \<Rightarrow> error + (string \<times> (ref \<times> ('v, 'd) relation) \<times> ('v, 'd) engine)" where
  "createRelation e schemaName relName attrs pkNames =
     (case engine_schema e schemaName of
        Inl er \<Rightarrow> Inl er
      | Inr s \<Rightarrow>
          (case s relName of
             Some _ \<Rightarrow> Inl (Duplicate relName)
           | None \<Rightarrow>
               (let rid = next_ref e; r = NewRelation schemaName relName attrs pkNames
                in Inr (schemaName, (rid, r),
                     e\<lparr>schemas := (schemas e)(schemaName \<mapsto> s(relName \<mapsto> rid)),
                       heap := (heap e)(rid \<mapsto> r),
                       next_ref := Suc rid\<rparr>))))"

definition dropRelation ::
  "('v, 'd) engine \<Rightarrow> string \<Rightarrow> string
     \<Rightarrow> error + (string \<times> (ref \<times> ('v, 'd) relation) \<times> ('v, 'd) engine)" where
  "dropRelation e schemaName relName =
     (case engine_schema e schemaName of
        Inl er \<Rightarrow> Inl er
      | Inr s \<Rightarrow>
          (case schema_Relation e s relName of
             Inl er \<Rightarrow> Inl er
           | Inr (rid, r) \<Rightarrow>
               Inr (schemaName, (rid, r),
                    e\<lparr>schemas := (schemas e)(schemaName \<mapsto> s(relName := None))\<rparr>)))"

section \<open>Transactions\<close>

text \<open>
  The change log. A \<^verbatim>\<open>ValueChange\<close> holds the element \<^verbatim>\<open>current\<close>, the element
  \<^verbatim>\<open>old\<close> and the list \<^verbatim>\<open>l\<close>; every relation owns exactly the list created for it
  by \<^verbatim>\<open>NewRelation\<close>, so the list is named by the reference of its relation. A
  \<^verbatim>\<open>RelationChange\<close> holds the schema (named by its name: the source files create and
  drop no schema) and the relations \<^verbatim>\<open>current\<close> and \<^verbatim>\<open>old\<close>.
\<close>

datatype change =
    ValueChange (vc_current: "ref option") (vc_old: "ref option") (vc_l: ref)
  | RelationChange (rc_schema: string) (rc_current: "ref option") (rc_old: "ref option")

record transaction =
  locks :: "(string \<times> ref) list"
  changes :: "change list"
  err :: "error option"

definition NewTransaction :: transaction where
  "NewTransaction = \<lparr>locks = [], changes = [], err = None\<rparr>"

definition aborted :: "transaction \<Rightarrow> error option" where
  "aborted t = (case err t of Some e \<Rightarrow> Some (TransactionAborted e) | None \<Rightarrow> None)"

definition lock :: "transaction \<Rightarrow> ref \<times> ('v, 'd) relation \<Rightarrow> transaction" where
  "lock t r =
     (case map_of (locks t) (rel_name (snd r)) of
        Some _ \<Rightarrow> t
      | None \<Rightarrow> t\<lparr>locks := AList.update (rel_name (snd r)) (fst r) (locks t)\<rparr>)"

definition unlock :: "transaction \<Rightarrow> transaction" where
  "unlock t = t\<lparr>locks := []\<rparr>"

text \<open>
  Modelled from the spec: \<^verbatim>\<open>rollbackValueChange\<close> and \<^verbatim>\<open>rollbackRelationChange\<close>
  are not in the source files. The spec has Rollback undo each entry: restore the row
  list and the index state, re-create a dropped relation, drop a created one. The entry
  of an Insert has \<^verbatim>\<open>old = nil\<close>: its element is removed from the list and its tuple
  from every index of the relation. The source files hold no Delete and no Update, so
  entries of another shape are never pushed; they are left alone here. A
  \<^verbatim>\<open>RelationChange\<close> with \<^verbatim>\<open>old = nil\<close> is a creation, with \<^verbatim>\<open>current = nil\<close> a drop.
\<close>

definition rollbackValueChange ::
  "ref option \<Rightarrow> ref option \<Rightarrow> ref \<Rightarrow> ('v, 'd) engine \<Rightarrow> ('v, 'd) engine" where
  "rollbackValueChange cur old lst e =
     (case (cur, old) of
        (Some el, None) \<Rightarrow>
          (case heap e lst of
             None \<Rightarrow> e
           | Some r \<Rightarrow>
               e\<lparr>heap := (heap e)(lst \<mapsto>
                    r\<lparr>rows := filter (\<lambda>t. fst t \<noteq> el) (rows r),
                      indexes := map (index_Remove el) (indexes r)\<rparr>)\<rparr>)
      | _ \<Rightarrow> e)"

definition schema_set :: "('v, 'd) engine \<Rightarrow> string \<Rightarrow> string \<Rightarrow> ref option \<Rightarrow> ('v, 'd) engine" where
  "schema_set e sch nm v =
     (case schemas e sch of
        None \<Rightarrow> e
      | Some s \<Rightarrow> e\<lparr>schemas := (schemas e)(sch \<mapsto> s(nm := v))\<rparr>)"

definition rollbackRelationChange ::
  "string \<Rightarrow> ref option \<Rightarrow> ref option \<Rightarrow> ('v, 'd) engine \<Rightarrow> ('v, 'd) engine" where
  "rollbackRelationChange sch cur old e =
     (case (cur, old) of
        (Some rid, None) \<Rightarrow>
          (case heap e rid of None \<Rightarrow> e | Some r \<Rightarrow> schema_set e sch (rel_name r) None)
      | (None, Some rid) \<Rightarrow>
          (case heap e rid of None \<Rightarrow> e | Some r \<Rightarrow> schema_set e sch (rel_name r) (Some rid))
      | _ \<Rightarrow> e)"

text \<open>The type switch in the loop of \<^verbatim>\<open>Rollback\<close>.\<close>

fun rollback_change :: "change \<Rightarrow> ('v, 'd) engine \<Rightarrow> ('v, 'd) engine" where
  "rollback_change (ValueChange cur old lst) e = rollbackValueChange cur old lst e"
| "rollback_change (RelationChange sch cur old) e = rollbackRelationChange sch cur old e"

text \<open>
  The loop of \<^verbatim>\<open>Rollback\<close>: take the back of the list, undo it, remove it, until the
  list is empty.
\<close>

function rollback_loop :: "change list \<Rightarrow> ('v, 'd) engine \<Rightarrow> ('v, 'd) engine" where
  "rollback_loop cs e =
     (if cs = [] then e else rollback_loop (butlast cs) (rollback_change (last cs) e))"
  by pat_completeness auto
termination
  by (relation "measure (\<lambda>(cs, e). length cs)") auto

declare rollback_loop.simps [simp del]

text \<open>The loop of \<^verbatim>\<open>Commit\<close>: remove the back of the list until the list is empty.\<close>

function remove_all :: "change list \<Rightarrow> change list" where
  "remove_all cs = (if cs = [] then cs else remove_all (butlast cs))"
  by pat_completeness auto
termination
  by (relation "measure length") auto

declare remove_all.simps [simp del]

definition Commit :: "transaction \<Rightarrow> (error + nat) \<times> transaction" where
  "Commit t =
     (case aborted t of
        Some er \<Rightarrow> (Inl er, t)
      | None \<Rightarrow>
          (let changed = length (changes t);
               t1 = t\<lparr>changes := remove_all (changes t)\<rparr>;
               t2 = unlock t1
           in (Inr changed, t2\<lparr>err := Some TransactionCommitted\<rparr>)))"

definition Rollback :: "transaction \<Rightarrow> ('v, 'd) engine \<Rightarrow> transaction \<times> ('v, 'd) engine" where
  "Rollback t e =
     (case aborted t of
        Some er \<Rightarrow> (t, e)
      | None \<Rightarrow> (unlock (t\<lparr>changes := []\<rparr>), rollback_loop (changes t) e))"

definition abort ::
  "transaction \<Rightarrow> ('v, 'd) engine \<Rightarrow> error \<Rightarrow> transaction \<times> ('v, 'd) engine" where
  "abort t e er = (case Rollback t e of (t1, e1) \<Rightarrow> (t1\<lparr>err := Some er\<rparr>, e1))"

definition Error :: "transaction \<Rightarrow> error option" where
  "Error t = err t"

text \<open>
  The two lookups. They return the error of a missing schema, relation or attribute to the
  caller without calling \<^verbatim>\<open>abort\<close>, and change neither the transaction nor the engine.
\<close>

definition RelationAttribute ::
  "transaction \<Rightarrow> ('v, 'd) engine \<Rightarrow> string \<Rightarrow> string \<Rightarrow> string
     \<Rightarrow> (error + (nat \<times> ('v, 'd) attribute)) option" where
  "RelationAttribute t e schName relName attrName =
     (case aborted t of
        Some er \<Rightarrow> Some (Inl er)
      | None \<Rightarrow>
          (case engine_schema e schName of
             Inl er \<Rightarrow> Some (Inl er)
           | Inr s \<Rightarrow>
               (case schema_Relation e s relName of
                  Inl er \<Rightarrow> Some (Inl er)
                | Inr r \<Rightarrow> Relation_Attribute (snd r) attrName)))"

definition CheckRelation :: "transaction \<Rightarrow> ('v, 'd) engine \<Rightarrow> string \<Rightarrow> string \<Rightarrow> bool" where
  "CheckRelation t e schemaName relName =
     (case aborted t of
        Some er \<Rightarrow> False
      | None \<Rightarrow>
          (case engine_schema e schemaName of
             Inl er \<Rightarrow> False
           | Inr s \<Rightarrow> (case schema_Relation e s relName of Inl er \<Rightarrow> False | Inr r \<Rightarrow> True)))"

definition CreateRelation ::
  "transaction \<Rightarrow> ('v, 'd) engine \<Rightarrow> string \<Rightarrow> string \<Rightarrow> ('v, 'd) attribute list \<Rightarrow> string list
     \<Rightarrow> error option \<times> transaction \<times> ('v, 'd) engine" where
  "CreateRelation t e schemaName relName attrs pkNames =
     (case aborted t of
        Some er \<Rightarrow> (Some er, t, e)
      | None \<Rightarrow>
          (case createRelation e schemaName relName attrs pkNames of
             Inl er \<Rightarrow> (case abort t e er of (t1, e1) \<Rightarrow> (Some er, t1, e1))
           | Inr (s, r, e1) \<Rightarrow>
               (let c = RelationChange s (Some (fst r)) None;
                    t1 = t\<lparr>changes := changes t @ [c]\<rparr>
                in (None, lock t1 r, e1))))"

definition DropRelation ::
  "transaction \<Rightarrow> ('v, 'd) engine \<Rightarrow> string \<Rightarrow> string
     \<Rightarrow> error option \<times> transaction \<times> ('v, 'd) engine" where
  "DropRelation t e schemaName relName =
     (case aborted t of
        Some er \<Rightarrow> (Some er, t, e)
      | None \<Rightarrow>
          (case dropRelation e schemaName relName of
             Inl er \<Rightarrow> (case abort t e er of (t1, e1) \<Rightarrow> (Some er, t1, e1))
           | Inr (s, r, e1) \<Rightarrow>
               (let c = RelationChange s None (Some (fst r))
                in (None, t\<lparr>changes := changes t @ [c]\<rparr>, e1))))"

section \<open>Insert\<close>

text \<open>
  The calls into package \<^verbatim>\<open>reflect\<close> are parameters: \<open>convertibleTo v d\<close> is
  \<^verbatim>\<open>reflect.TypeOf(v).ConvertibleTo(d)\<close>, \<open>convertTo v d\<close> is
  \<^verbatim>\<open>reflect.ValueOf(v).Convert(d).Interface()\<close>, and \<open>convertCounter n d\<close> is the same
  conversion of the counter \<^verbatim>\<open>nextValue\<close>. The calls are taken to return: \<open>'v\<close> and
  \<open>'d\<close> stand for the values and the types on which package \<^verbatim>\<open>reflect\<close> does not
  panic (it does on a nil interface value and on a nil type).
\<close>

record ('v, 'd) reflect =
  convertibleTo :: "'v \<Rightarrow> 'd \<Rightarrow> bool"
  convertTo :: "'v \<Rightarrow> 'd \<Rightarrow> 'v"
  convertCounter :: "int \<Rightarrow> 'd \<Rightarrow> 'v"

text \<open>
  The loop over \<^verbatim>\<open>r.attributes\<close>. \<open>visited\<close> holds the attributes already visited (with
  the counters the loop has incremented), \<open>tup\<close> the tuple built so far, \<open>vals\<close> the
  caller's map. The loop returns the tuple or the error, and in both cases the attribute
  slice and the map as it leaves them.
\<close>

fun insert_loop ::
  "('v, 'd) reflect \<Rightarrow> string \<Rightarrow> ('v, 'd) attribute list \<Rightarrow> ('v, 'd) attribute list \<Rightarrow> 'v tuple
     \<Rightarrow> (string \<times> 'v) list
     \<Rightarrow> (error + 'v tuple) \<times> ('v, 'd) attribute list \<times> (string \<times> 'v) list" where
  "insert_loop rf relation [] visited tup vals = (Inr tup, visited, vals)"
| "insert_loop rf relation (attr # rest) visited tup vals =
     (let specified = (map_of vals (attr_name attr) \<noteq> None) in
      if \<not> specified \<and> defaultValue attr \<noteq> None
      then insert_loop rf relation rest (visited @ [attr])
             (tup @ [(the (defaultValue attr)) ()]) vals
      else if \<not> specified \<and> autoIncrement attr
      then insert_loop rf relation rest (visited @ [attr\<lparr>nextValue := nextValue attr + 1\<rparr>])
             (tup @ [convertCounter rf (nextValue attr) (typeInstance attr)]) vals
      else if specified
      then (let val = the (map_of vals (attr_name attr)) in
            if \<not> convertibleTo rf val (typeInstance attr)
            then (Inl (DomainMismatch relation (attr_name attr)), visited @ attr # rest, vals)
            else insert_loop rf relation rest (visited @ [attr])
                   (tup @ [convertTo rf val (typeInstance attr)])
                   (AList.delete (attr_name attr) vals))
      else (Inl (MissingValue relation (attr_name attr)), visited @ attr # rest, vals))"

definition Insert ::
  "('v, 'd) reflect \<Rightarrow> transaction \<Rightarrow> ('v, 'd) engine \<Rightarrow> string \<Rightarrow> string \<Rightarrow> (string \<times> 'v) list
     \<Rightarrow> (error + 'v row) \<times> transaction \<times> ('v, 'd) engine \<times> (string \<times> 'v) list" where
  "Insert rf t e schemaName relation vals =
     (case aborted t of
        Some er \<Rightarrow> (Inl er, t, e, vals)
      | None \<Rightarrow>
          (case engine_schema e schemaName of
             Inl er \<Rightarrow> (case abort t e er of (t1, e1) \<Rightarrow> (Inl er, t1, e1, vals))
           | Inr s \<Rightarrow>
               (case schema_Relation e s relation of
                  Inl er \<Rightarrow> (case abort t e er of (t1, e1) \<Rightarrow> (Inl er, t1, e1, vals))
                | Inr r \<Rightarrow>
                    (let t1 = lock t r;
                         rid = fst r;
                         (res, attrs1, vals1) = insert_loop rf relation (attributes (snd r)) [] [] vals;
                         r1 = (snd r)\<lparr>attributes := attrs1\<rparr>;
                         e1 = e\<lparr>heap := (heap e)(rid \<mapsto> r1)\<rparr>
                     in case res of
                          Inl er \<Rightarrow> (case abort t1 e1 er of (t2, e2) \<Rightarrow> (Inl er, t2, e2, vals1))
                        | Inr tup \<Rightarrow>
                            (case vals1 of
                               (k, v) # others \<Rightarrow>
                                 (case abort t1 e1 (AttributeMissing k relation) of
                                    (t2, e2) \<Rightarrow> (Inl (AttributeMissing k relation), t2, e2, vals1))
                             | [] \<Rightarrow>
                                 (let el = next_ref e1;
                                      row = (el, tup);
                                      r2 = r1\<lparr>rows := rows r1 @ [row],
                                             indexes := map (index_Add row) (indexes r1)\<rparr>;
                                      e2 = e1\<lparr>heap := (heap e1)(rid \<mapsto> r2), next_ref := Suc el\<rparr>;
                                      c = ValueChange (Some el) None rid
                                  in (Inr row, t1\<lparr>changes := changes t1 @ [c]\<rparr>, e2, vals1)))))))"

section \<open>Query\<close>

text \<open>
  \<^verbatim>\<open>Predicate\<close>, \<^verbatim>\<open>Selector\<close> and \<^verbatim>\<open>Joiner\<close> are interfaces declared outside the
  source files. A predicate is what the source asks of it: \<^verbatim>\<open>Relation()\<close>, \<^verbatim>\<open>Left()\<close>
  and \<^verbatim>\<open>Right()\<close> (each child present or not), with the rest of the node as a payload
  \<open>'a\<close>. A selector answers \<^verbatim>\<open>Relation()\<close>. A joiner answers \<^verbatim>\<open>Left()\<close> and
  \<^verbatim>\<open>Right()\<close> with relation names and holds the two child nodes that \<^verbatim>\<open>SetLeft\<close> and
  \<^verbatim>\<open>SetRight\<close> write.
\<close>

datatype 'a predicate =
  Predicate (Relation: string) (payload: 'a) (Left: "'a predicate option") (Right: "'a predicate option")

datatype selector = Selector (sel_Relation: string) (sel_attribute: string)

text \<open>
  A node of the execution tree is named, not copied: a scanner by the key under which the
  map \<^verbatim>\<open>scanners\<close> holds it, a joiner by its position in the sorted slice
  \<^verbatim>\<open>joiners\<close>. So a joiner that \<^verbatim>\<open>SetRight\<close> makes its own child is representable.
\<close>

datatype noderef = ScannerNode string | JoinerNode nat

record joiner =
  j_Left :: string
  j_Right :: string
  j_left :: "noderef option"
  j_right :: "noderef option"

datatype ('v, 'a) source = HashIndexSource "'v index" "'a predicate" | SeqScan ref

record ('v, 'a) scanner =
  sc_source :: "('v, 'a) source option"
  sc_predicates :: "'a predicate list"

record ('v, 'a) selectorNode =
  sn_selectors :: "selector list"
  sn_child :: "noderef option"
  sn_joiners :: "joiner list"
  sn_scanners :: "(string \<times> ('v, 'a) scanner) list"

text \<open>
  What the source calls and the source files do not hold: \<open>canSourceWith\<close> is
  \<^verbatim>\<open>Index.CanSourceWith\<close>; \<open>hashIndexSourceError\<close> is the error of
  \<^verbatim>\<open>NewHashIndexSource\<close>, if any; \<open>rangeOrder\<close> is the order in which \<^verbatim>\<open>range\<close> visits
  the entries of the map \<^verbatim>\<open>relations\<close> (a permutation the Go runtime chooses);
  \<open>sortJoiners\<close> is \<^verbatim>\<open>sort.Sort(Joiners(joiners))\<close>; \<open>execNode\<close> is \<^verbatim>\<open>Exec\<close> on the
  selector node. \<^verbatim>\<open>PrintQueryPlan\<close> and \<^verbatim>\<open>log.Debug\<close> only print.
\<close>

record ('v, 'd, 'a) runtime =
  canSourceWith :: "'v index \<Rightarrow> 'a predicate \<Rightarrow> bool \<times> int"
  hashIndexSourceError :: "'v index \<Rightarrow> 'a predicate \<Rightarrow> error option"
  rangeOrder :: "(string \<times> ref \<times> ('v, 'd) relation) list \<Rightarrow> (string \<times> ref \<times> ('v, 'd) relation) list"
  sortJoiners :: "('v, 'd) engine \<Rightarrow> (string \<times> ('v, 'a) scanner) list \<Rightarrow> joiner list \<Rightarrow> joiner list"
  execNode :: "('v, 'd) engine \<Rightarrow> ('v, 'a) selectorNode \<Rightarrow> error + (string list \<times> 'v row list)"

definition NewHashIndexSource ::
  "('v, 'd, 'a) runtime \<Rightarrow> 'v index \<Rightarrow> 'a predicate \<Rightarrow> error + ('v, 'a) source" where
  "NewHashIndexSource rt idx p =
     (case hashIndexSourceError rt idx p of Some er \<Rightarrow> Inl er | None \<Rightarrow> Inr (HashIndexSource idx p))"

text \<open>
  \<^verbatim>\<open>recCanUseIndex\<close> returns \<^verbatim>\<open>(cost, true, p)\<close> with the predicate that the index
  can source, or \<^verbatim>\<open>(0, false, nil)\<close>: here \<open>Some (cost, p)\<close> or \<open>None\<close>.
\<close>

fun recCanUseIndex ::
  "('v, 'd, 'a) runtime \<Rightarrow> string \<Rightarrow> 'v index \<Rightarrow> 'a predicate \<Rightarrow> (int \<times> 'a predicate) option" where
  "recCanUseIndex rt relName idx (Predicate rel pl lft rgt) =
     (let p = Predicate rel pl lft rgt in
      if fst (canSourceWith rt idx p) then Some (snd (canSourceWith rt idx p), p)
      else
        (case (case lft of Some lp \<Rightarrow> recCanUseIndex rt relName idx lp | None \<Rightarrow> None) of
           Some found \<Rightarrow> Some found
         | None \<Rightarrow>
             (case (case rgt of Some rp \<Rightarrow> recCanUseIndex rt relName idx rp | None \<Rightarrow> None) of
                Some found \<Rightarrow> Some found
              | None \<Rightarrow> None)))"

fun recAppendPredicates :: "string \<Rightarrow> ('v, 'a) scanner \<Rightarrow> 'a predicate \<Rightarrow> ('v, 'a) scanner" where
  "recAppendPredicates rname sc (Predicate rel pl lft rgt) =
     (if rel = rname
      then sc\<lparr>sc_predicates := sc_predicates sc @ [Predicate rel pl lft rgt]\<rparr>
      else
        (let sc1 = (case lft of Some lp \<Rightarrow> recAppendPredicates rname sc lp | None \<Rightarrow> sc)
         in (case rgt of Some rp \<Rightarrow> recAppendPredicates rname sc1 rp | None \<Rightarrow> sc1)))"

text \<open>
  \<^verbatim>\<open>recLock\<close> writes the map \<^verbatim>\<open>relations\<close> and the lock table also when it returns an
  error, so both are returned with the error.
\<close>

fun recLock ::
  "transaction \<Rightarrow> ('v, 'd) engine \<Rightarrow> string \<Rightarrow> (string \<times> ref \<times> ('v, 'd) relation) list \<Rightarrow> 'a predicate
     \<Rightarrow> error option \<times> (string \<times> ref \<times> ('v, 'd) relation) list \<times> transaction" where
  "recLock t e schemaName relations (Predicate rel pl lft rgt) =
     (case engine_schema e schemaName of
        Inl er \<Rightarrow> (Some er, relations, t)
      | Inr s \<Rightarrow>
          (case (if rel \<noteq> []
                 then (case schema_Relation e s rel of
                         Inl er \<Rightarrow> Inl er
                       | Inr r \<Rightarrow> Inr (AList.update rel r relations, lock t r))
                 else Inr (relations, t)) of
             Inl er \<Rightarrow> (Some er, relations, t)
           | Inr (relations1, t1) \<Rightarrow>
               (case (case lft of
                        Some lp \<Rightarrow> recLock t1 e schemaName relations1 lp
                      | None \<Rightarrow> (None, relations1, t1)) of
                  (Some er, relations2, t2) \<Rightarrow> (Some er, relations2, t2)
                | (None, relations2, t2) \<Rightarrow>
                    (case rgt of
                       Some rp \<Rightarrow> recLock t2 e schemaName relations2 rp
                     | None \<Rightarrow> (None, relations2, t2)))))"

text \<open>The loop over the selectors in step (1).\<close>

fun selector_loop ::
  "transaction \<Rightarrow> ('v, 'd) engine \<Rightarrow> (string \<rightharpoonup> ref) \<Rightarrow> (string \<times> ref \<times> ('v, 'd) relation) list
     \<Rightarrow> selector list \<Rightarrow> error option \<times> (string \<times> ref \<times> ('v, 'd) relation) list \<times> transaction" where
  "selector_loop t e s relations [] = (None, relations, t)"
| "selector_loop t e s relations (sel # sels) =
     (case schema_Relation e s (sel_Relation sel) of
        Inl er \<Rightarrow> (Some er, relations, t)
      | Inr r \<Rightarrow> selector_loop (lock t r) e s (AList.update (sel_Relation sel) r relations) sels)"

text \<open>
  Step (2). \<^verbatim>\<open>sourceCost\<close> is declared before the loop over the relations and is
  carried from one relation to the next, as in the source.
\<close>

fun index_loop ::
  "('v, 'd, 'a) runtime \<Rightarrow> string \<Rightarrow> 'a predicate \<Rightarrow> 'v index list
     \<Rightarrow> (string \<times> ('v, 'a) source) list \<times> int \<Rightarrow> (string \<times> ('v, 'a) source) list \<times> int" where
  "index_loop rt rname p [] (sources, sourceCost) = (sources, sourceCost)"
| "index_loop rt rname p (idx # rest) (sources, sourceCost) =
     (case recCanUseIndex rt rname idx p of
        None \<Rightarrow> index_loop rt rname p rest (sources, sourceCost)
      | Some (cost, cp) \<Rightarrow>
          (if sourceCost = 0 \<or> cost < sourceCost
           then (case NewHashIndexSource rt idx cp of
                   Inl er \<Rightarrow> index_loop rt rname p rest (sources, sourceCost)
                 | Inr newsrc \<Rightarrow> index_loop rt rname p rest (AList.update rname newsrc sources, cost))
           else index_loop rt rname p rest (sources, sourceCost)))"

fun source_loop ::
  "('v, 'd, 'a) runtime \<Rightarrow> 'a predicate \<Rightarrow> (string \<times> ref \<times> ('v, 'd) relation) list
     \<Rightarrow> (string \<times> ('v, 'a) source) list \<times> int \<Rightarrow> (string \<times> ('v, 'a) source) list \<times> int" where
  "source_loop rt p [] (sources, sourceCost) = (sources, sourceCost)"
| "source_loop rt p ((k, rid, r) # rest) (sources, sourceCost) =
     (case index_loop rt (rel_name r) p (indexes r) (sources, sourceCost) of
        (sources1, sourceCost1) \<Rightarrow>
          (case map_of sources1 (rel_name r) of
             None \<Rightarrow> source_loop rt p rest (AList.update (rel_name r) (SeqScan rid) sources1, sourceCost1)
           | Some src \<Rightarrow> source_loop rt p rest (sources1, sourceCost1)))"

definition choose_sources ::
  "('v, 'd, 'a) runtime \<Rightarrow> 'a predicate \<Rightarrow> (string \<times> ref \<times> ('v, 'd) relation) list
     \<Rightarrow> (string \<times> ('v, 'a) source) list" where
  "choose_sources rt p relations = fst (source_loop rt p (rangeOrder rt relations) ([], 0))"

text \<open>Step (3): one scanner for each relation, then the joiners.\<close>

definition NewRelationScanner :: "('v, 'a) source option \<Rightarrow> ('v, 'a) scanner" where
  "NewRelationScanner src = \<lparr>sc_source = src, sc_predicates = []\<rparr>"

fun scanner_loop ::
  "(string \<times> ('v, 'a) source) list \<Rightarrow> 'a predicate \<Rightarrow> (string \<times> ref \<times> ('v, 'd) relation) list
     \<Rightarrow> (string \<times> ('v, 'a) scanner) list \<Rightarrow> (string \<times> ('v, 'a) scanner) list" where
  "scanner_loop sources p [] scanners = scanners"
| "scanner_loop sources p ((k, rid, r) # rest) scanners =
     (let sc = NewRelationScanner (map_of sources (rel_name r));
          sc1 = recAppendPredicates (rel_name r) sc p
      in scanner_loop sources p rest (AList.update (rel_name r) sc1 scanners))"

fun assign_loop ::
  "(string \<times> ('v, 'a) scanner) list \<Rightarrow> joiner list \<Rightarrow> error + joiner list" where
  "assign_loop scanners [] = Inr []"
| "assign_loop scanners (j # js) =
     (case map_of scanners (j_Left j) of
        None \<Rightarrow> Inl (PlanningError (''cannot join, scanner for '' @ j_Left j @ '' not found''))
      | Some scl \<Rightarrow>
          (case map_of scanners (j_Right j) of
             None \<Rightarrow> Inl (PlanningError (''cannot join, scanner for '' @ j_Right j @ '' not found''))
           | Some scr \<Rightarrow>
               (case assign_loop scanners js of
                  Inl er \<Rightarrow> Inl er
                | Inr js1 \<Rightarrow>
                    Inr (j\<lparr>j_left := Some (ScannerNode (j_Left j)),
                           j_right := Some (ScannerNode (j_Right j))\<rparr> # js1))))"

text \<open>
  The loop over the sorted joiners with the map \<^verbatim>\<open>seen\<close>; \<open>i\<close> is the position of the
  joiner \<^verbatim>\<open>n\<close> in the slice.
\<close>

fun seen_loop ::
  "nat \<Rightarrow> joiner list \<Rightarrow> (string \<times> noderef) list \<Rightarrow> joiner list" where
  "seen_loop i [] seen = []"
| "seen_loop i (n # ns) seen =
     (case (case map_of seen (j_Left n) of
              None \<Rightarrow> (n, AList.update (j_Left n) (JoinerNode i) seen)
            | Some child \<Rightarrow> (n\<lparr>j_left := Some child\<rparr>, seen)) of
        (n1, seen1) \<Rightarrow>
          (case (case map_of seen1 (j_Right n1) of
                   None \<Rightarrow> (n1, AList.update (j_Right n1) (JoinerNode i) seen1)
                 | Some child \<Rightarrow> (n1\<lparr>j_right := Some child\<rparr>, seen1)) of
             (n2, seen2) \<Rightarrow> n2 # seen_loop (Suc i) ns seen2))"

text \<open>
  Steps (2) and (3) together: from the predicate, the selectors, the joiners and the map
  \<^verbatim>\<open>relations\<close> to the selector node that \<^verbatim>\<open>Query\<close> executes, or the planning error.
\<close>

definition planner ::
  "('v, 'd, 'a) runtime \<Rightarrow> ('v, 'd) engine \<Rightarrow> selector list \<Rightarrow> 'a predicate \<Rightarrow> joiner list
     \<Rightarrow> (string \<times> ref \<times> ('v, 'd) relation) list \<Rightarrow> error + ('v, 'a) selectorNode" where
  "planner rt e selectors p joiners relations =
     (let sources = choose_sources rt p relations;
          scanners = scanner_loop sources p (rangeOrder rt relations) []
      in case assign_loop scanners joiners of
           Inl er \<Rightarrow> Inl er
         | Inr joiners1 \<Rightarrow>
             (let joiners2 = seen_loop 0 (sortJoiners rt e scanners joiners1) []
              in if length joiners2 > 0
                 then Inr \<lparr>sn_selectors = selectors,
                           sn_child = Some (JoinerNode (length joiners2 - 1)),
                           sn_joiners = joiners2, sn_scanners = scanners\<rparr>
                 else if length scanners = 1
                 then Inr \<lparr>sn_selectors = selectors,
                           sn_child = Some (ScannerNode (fst (hd scanners))),
                           sn_joiners = joiners2, sn_scanners = scanners\<rparr>
                 else Inl (PlanningError ''no join, but got several scan'')))"

definition Query ::
  "('v, 'd, 'a) runtime \<Rightarrow> transaction \<Rightarrow> ('v, 'd) engine \<Rightarrow> string \<Rightarrow> selector list
     \<Rightarrow> 'a predicate option \<Rightarrow> joiner list
     \<Rightarrow> (error + (string list \<times> 'v row list)) \<times> transaction \<times> ('v, 'd) engine" where
  "Query rt t e schemaName selectors po joiners =
     (case aborted t of
        Some er \<Rightarrow> (Inl er, t, e)
      | None \<Rightarrow>
          (case engine_schema e schemaName of
             Inl er \<Rightarrow> (case abort t e er of (t1, e1) \<Rightarrow> (Inl er, t1, e1))
           | Inr s \<Rightarrow>
               (case po of
                  None \<Rightarrow>
                    (case abort t e (PlanningError ''query requires 1 predicate'') of
                       (t1, e1) \<Rightarrow> (Inl (PlanningError ''query requires 1 predicate''), t1, e1))
                | Some p \<Rightarrow>
                    (case recLock t e schemaName [] p of
                       (Some er, relations1, t1) \<Rightarrow>
                         (case abort t1 e er of (t2, e2) \<Rightarrow> (Inl er, t2, e2))
                     | (None, relations1, t1) \<Rightarrow>
                         (case selector_loop t1 e s relations1 selectors of
                            (Some er, relations2, t2) \<Rightarrow>
                              (case abort t2 e er of (t3, e3) \<Rightarrow> (Inl er, t3, e3))
                          | (None, relations2, t2) \<Rightarrow>
                              (case planner rt e selectors p joiners relations2 of
                                 Inl er \<Rightarrow> (case abort t2 e er of (t3, e3) \<Rightarrow> (Inl er, t3, e3))
                               | Inr n \<Rightarrow>
                                   (case execNode rt e n of
                                      Inl er \<Rightarrow>
                                        (case abort t2 e er of (t3, e3) \<Rightarrow> (Inl er, t3, e3))
                                    | Inr (columns, res) \<Rightarrow> (Inr (columns, res), t2, e))))))))"

section \<open>Operations of a transaction\<close>

text \<open>
  The operations that a caller issues on a transaction, and one step of a transaction:
  the reply, the transaction and the engine after the call.
\<close>

datatype ('v, 'd, 'a) operation =
    OpInsert string string "(string \<times> 'v) list"
  | OpQuery string "selector list" "'a predicate option" "joiner list"
  | OpCreateRelation string string "('v, 'd) attribute list" "string list"
  | OpDropRelation string string
  | OpCommit
  | OpRollback

datatype 'v reply =
    Failed error
  | Inserted "'v row"
  | Result "string list" "'v row list"
  | Changed nat
  | Done

fun run_op ::
  "('v, 'd) reflect \<Rightarrow> ('v, 'd, 'a) runtime \<Rightarrow> ('v, 'd, 'a) operation \<Rightarrow> transaction \<Rightarrow> ('v, 'd) engine
     \<Rightarrow> 'v reply \<times> transaction \<times> ('v, 'd) engine" where
  "run_op rf rt (OpInsert sch rel vals) t e =
     (case Insert rf t e sch rel vals of
        (Inl er, t1, e1, vals1) \<Rightarrow> (Failed er, t1, e1)
      | (Inr row, t1, e1, vals1) \<Rightarrow> (Inserted row, t1, e1))"
| "run_op rf rt (OpQuery sch sels po js) t e =
     (case Query rt t e sch sels po js of
        (Inl er, t1, e1) \<Rightarrow> (Failed er, t1, e1)
      | (Inr (columns, res), t1, e1) \<Rightarrow> (Result columns res, t1, e1))"
| "run_op rf rt (OpCreateRelation sch rel attrs pkNames) t e =
     (case CreateRelation t e sch rel attrs pkNames of
        (Some er, t1, e1) \<Rightarrow> (Failed er, t1, e1)
      | (None, t1, e1) \<Rightarrow> (Done, t1, e1))"
| "run_op rf rt (OpDropRelation sch rel) t e =
     (case DropRelation t e sch rel of
        (Some er, t1, e1) \<Rightarrow> (Failed er, t1, e1)
      | (None, t1, e1) \<Rightarrow> (Done, t1, e1))"
| "run_op rf rt OpCommit t e =
     (case Commit t of
        (Inl er, t1) \<Rightarrow> (Failed er, t1, e)
      | (Inr n, t1) \<Rightarrow> (Changed n, t1, e))"
| "run_op rf rt OpRollback t e = (case Rollback t e of (t1, e1) \<Rightarrow> (Done, t1, e1))"

section \<open>Example data\<close>

text \<open>
  A small instance for the concrete statements below: integer and text values, the
  schema \<open>main\<close> with the relation \<open>account (id INT, email TEXT)\<close> of the test
  \<^verbatim>\<open>TestCheckAttributes\<close>, and a conversion table in which a text does not convert to an
  integer column.
\<close>

datatype ex_val = VInt int | VText string

datatype ex_dom = DInt | DText

definition ex_reflect :: "(ex_val, ex_dom) reflect" where
  "ex_reflect =
     \<lparr>convertibleTo = (\<lambda>v d. case (v, d) of (VText s, DInt) \<Rightarrow> False | _ \<Rightarrow> True),
      convertTo = (\<lambda>v d. case (v, d) of (VInt n, DText) \<Rightarrow> VText [char_of n] | _ \<Rightarrow> v),
      convertCounter = (\<lambda>n d. case d of DInt \<Rightarrow> VInt n | DText \<Rightarrow> VText [char_of n])\<rparr>"

definition ex_attr :: "string \<Rightarrow> ex_dom \<Rightarrow> (ex_val, ex_dom) attribute" where
  "ex_attr nm d =
     \<lparr>attr_name = nm, typeInstance = d, defaultValue = None, autoIncrement = False,
      nextValue = 1, unique = False, fk = None\<rparr>"

definition ex_account :: "(ex_val, ex_dom) relation" where
  "ex_account = NewRelation ''main'' ''account'' [ex_attr ''id'' DInt, ex_attr ''email'' DText] []"

definition ex_engine :: "(ex_val, ex_dom) engine" where
  "ex_engine =
     \<lparr>schemas = [''main'' \<mapsto> [''account'' \<mapsto> 0]], heap = [0 \<mapsto> ex_account], next_ref = 1\<rparr>"

text \<open>
  A predicate node carries the name of its attribute (a leaf) or of its connective. In
  \<open>ex_runtime\<close> a hash index can source a predicate that is or contains an equality leaf
  on the relation and the attribute of the index, at cost 1, as the spec has it.
\<close>

fun ex_contains :: "string \<Rightarrow> string list \<Rightarrow> string predicate \<Rightarrow> bool" where
  "ex_contains rel attrs (Predicate r pl lft rgt) =
     (r = rel \<and> [pl] = attrs \<or>
      (case lft of Some lp \<Rightarrow> ex_contains rel attrs lp | None \<Rightarrow> False) \<or>
      (case rgt of Some rp \<Rightarrow> ex_contains rel attrs rp | None \<Rightarrow> False))"

definition ex_runtime :: "(ex_val, ex_dom, string) runtime" where
  "ex_runtime =
     \<lparr>canSourceWith = (\<lambda>idx p. if ex_contains (idx_relName idx) (idx_attrs idx) p
                                then (True, 1) else (False, 0)),
      hashIndexSourceError = (\<lambda>idx p. None),
      rangeOrder = (\<lambda>relations. relations),
      sortJoiners = (\<lambda>e scanners joiners. joiners),
      execNode = (\<lambda>e n. Inr ([], []))\<rparr>"

text \<open>
  The transaction and the engine after
  \<^verbatim>\<open>INSERT INTO account (id, email) VALUES (1, 'foo@bar.com')\<close> in a new transaction.
\<close>

definition ex_t1 :: transaction where
  "ex_t1 = \<lparr>locks = [(''account'', 0)], changes = [ValueChange (Some 1) None 0], err = None\<rparr>"

definition ex_engine1 :: "(ex_val, ex_dom) engine" where
  "ex_engine1 =
     \<lparr>schemas = [''main'' \<mapsto> [''account'' \<mapsto> 0]],
      heap = [0 \<mapsto> ex_account\<lparr>rows := [(1, [VInt 1, VText ''foo@bar.com''])]\<rparr>],
      next_ref = 2\<rparr>"

text \<open>
  Two relations \<open>a\<close> and \<open>b\<close> with the primary key \<open>id\<close>, so that each has the hash
  index \<^verbatim>\<open>NewRelation\<close> creates, and the predicate \<open>a.id = _ AND b.id = _\<close>, which
  both indexes can source at cost 1.
\<close>

definition ex_rel_a :: "(ex_val, ex_dom) relation" where
  "ex_rel_a = NewRelation ''main'' ''a'' [ex_attr ''id'' DInt] [''id'']"

definition ex_rel_b :: "(ex_val, ex_dom) relation" where
  "ex_rel_b = NewRelation ''main'' ''b'' [ex_attr ''id'' DInt] [''id'']"

definition ex_pk_a :: "ex_val index" where
  "ex_pk_a = \<lparr>idx_name = ''pk_main_a'', idx_relName = ''a'', idx_attrs = [''id''],
              idx_positions = [0], entries = []\<rparr>"

definition ex_pk_b :: "ex_val index" where
  "ex_pk_b = \<lparr>idx_name = ''pk_main_b'', idx_relName = ''b'', idx_attrs = [''id''],
              idx_positions = [0], entries = []\<rparr>"

definition ex_engine2 :: "(ex_val, ex_dom) engine" where
  "ex_engine2 =
     \<lparr>schemas = [''main'' \<mapsto> [''a'' \<mapsto> 0, ''b'' \<mapsto> 1]],
      heap = [0 \<mapsto> ex_rel_a, 1 \<mapsto> ex_rel_b], next_ref = 2\<rparr>"

definition ex_pred :: "string predicate" where
  "ex_pred = Predicate [] ''and'' (Some (Predicate ''a'' ''id'' None None))
                                  (Some (Predicate ''b'' ''id'' None None))"

definition ex_joiners :: "joiner list" where
  "ex_joiners = [\<lparr>j_Left = ''a'', j_Right = ''b'', j_left = None, j_right = None\<rparr>]"

definition ex_relations :: "(string \<times> ref \<times> (ex_val, ex_dom) relation) list" where
  "ex_relations = [(''a'', 0, ex_rel_a), (''b'', 1, ex_rel_b)]"



text \<open>
  An engine in which the relation \<open>a\<close> holds one row, which its primary-key index
  holds too, and three inserts of one transaction.
\<close>

definition ex_engine4 :: "(ex_val, ex_dom) engine" where
  "ex_engine4 =
     \<lparr>schemas = [''main'' \<mapsto> [''a'' \<mapsto> 0, ''b'' \<mapsto> 1]],
      heap = [0 \<mapsto> ex_rel_a\<lparr>rows := [(2, [VInt 10])],
                              indexes := [ex_pk_a\<lparr>entries := [(2, [VInt 10])]\<rparr>]\<rparr>,
              1 \<mapsto> ex_rel_b],
      next_ref = 3\<rparr>"

definition ex_inserts :: "(string \<times> string \<times> (string \<times> ex_val) list) list" where
  "ex_inserts =
     [(''main'', ''a'', [(''id'', VInt 11)]), (''main'', ''b'', [(''id'', VInt 5)]),
      (''main'', ''a'', [(''id'', VInt 12)])]"

text \<open>An engine with two schemas that each hold a relation named \<open>account\<close>.\<close>

definition ex_engine5 :: "(ex_val, ex_dom) engine" where
  "ex_engine5 =
     \<lparr>schemas = [''main'' \<mapsto> [''account'' \<mapsto> 0], ''other'' \<mapsto> [''account'' \<mapsto> 1]],
      heap = [0 \<mapsto> ex_account,
              1 \<mapsto> NewRelation ''other'' ''account'' [ex_attr ''id'' DInt] []],
      next_ref = 2\<rparr>"

section \<open>Notions used in the statements\<close>

text \<open>
  Two engines hold the same data when they have the same schemas and every relation has
  the same name, the same row list and the same indexes in both. The autoincrement
  counters and the allocation counter are not compared: \<^verbatim>\<open>Insert\<close> writes the counters
  before it can fail, and no rollback restores them.
\<close>

definition rel_data :: "('v, 'd) relation \<Rightarrow> string \<times> 'v row list \<times> 'v index list" where
  "rel_data r = (rel_name r, rows r, indexes r)"

definition same_data :: "('v, 'd) engine \<Rightarrow> ('v, 'd) engine \<Rightarrow> bool" where
  "same_data e e' \<longleftrightarrow>
     schemas e = schemas e' \<and>
     (\<forall>rid. map_option rel_data (heap e rid) = map_option rel_data (heap e' rid))"



text \<open>
  The column policy in the words of the spec. For each declared attribute in declaration
  order: if a value is supplied, check domain convertibility (fail otherwise) and consume
  it; else if the attribute has a default, evaluate it; else if autoincrement, take the
  counter and increment; else fail with "no value for attribute". The result is the tuple
  or the error, the attributes with their counters, and the map without the consumed keys.
\<close>

definition policy_continue ::
  "'v \<Rightarrow> ('v, 'd) attribute \<Rightarrow> (error + 'v tuple) \<times> ('v, 'd) attribute list \<times> (string \<times> 'v) list
     \<Rightarrow> (error + 'v tuple) \<times> ('v, 'd) attribute list \<times> (string \<times> 'v) list" where
  "policy_continue v a r =
     (case r of
        (Inl er, as, vs) \<Rightarrow> (Inl er, a # as, vs)
      | (Inr tup, as, vs) \<Rightarrow> (Inr (v # tup), a # as, vs))"

fun column_policy ::
  "('v, 'd) reflect \<Rightarrow> string \<Rightarrow> ('v, 'd) attribute list \<Rightarrow> (string \<times> 'v) list
     \<Rightarrow> (error + 'v tuple) \<times> ('v, 'd) attribute list \<times> (string \<times> 'v) list" where
  "column_policy rf relation [] vals = (Inr [], [], vals)"
| "column_policy rf relation (attr # rest) vals =
     (case map_of vals (attr_name attr) of
        Some val \<Rightarrow>
          if convertibleTo rf val (typeInstance attr)
          then policy_continue (convertTo rf val (typeInstance attr)) attr
                 (column_policy rf relation rest (AList.delete (attr_name attr) vals))
          else (Inl (DomainMismatch relation (attr_name attr)), attr # rest, vals)
      | None \<Rightarrow>
          (case defaultValue attr of
             Some f \<Rightarrow> policy_continue (f ()) attr (column_policy rf relation rest vals)
           | None \<Rightarrow>
               if autoIncrement attr
               then policy_continue (convertCounter rf (nextValue attr) (typeInstance attr))
                      (attr\<lparr>nextValue := nextValue attr + 1\<rparr>)
                      (column_policy rf relation rest vals)
               else (Inl (MissingValue relation (attr_name attr)), attr # rest, vals)))"

text \<open>The result of the column policy on the attributes left, after a visited prefix.\<close>

definition after_prefix ::
  "('v, 'd) attribute list \<Rightarrow> 'v tuple
     \<Rightarrow> (error + 'v tuple) \<times> ('v, 'd) attribute list \<times> (string \<times> 'v) list
     \<Rightarrow> (error + 'v tuple) \<times> ('v, 'd) attribute list \<times> (string \<times> 'v) list" where
  "after_prefix visited tup r =
     (case r of
        (Inl er, as, vs) \<Rightarrow> (Inl er, visited @ as, vs)
      | (Inr tp, as, vs) \<Rightarrow> (Inr (tup @ tp), visited @ as, vs))"

text \<open>
  References are allocated in increasing order: every row of every relation and every
  entry of every index has a reference below the next unused one. Go allocates a new
  element for every \<^verbatim>\<open>PushBack\<close>; this is what makes it new here.
\<close>

definition wf_refs :: "('v, 'd) engine \<Rightarrow> bool" where
  "wf_refs e \<longleftrightarrow>
     (\<forall>rid r. heap e rid = Some r \<longrightarrow>
        (\<forall>row \<in> set (rows r). fst row < next_ref e) \<and>
        (\<forall>idx \<in> set (indexes r). \<forall>row \<in> set (entries idx). fst row < next_ref e))"

text \<open>A sequence of inserts in one transaction, all of them successful.\<close>

fun insert_all ::
  "('v, 'd) reflect \<Rightarrow> transaction \<Rightarrow> ('v, 'd) engine \<Rightarrow> (string \<times> string \<times> (string \<times> 'v) list) list
     \<Rightarrow> (transaction \<times> ('v, 'd) engine) option" where
  "insert_all rf t e [] = Some (t, e)"
| "insert_all rf t e ((sch, rel, vals) # ins) =
     (case Insert rf t e sch rel vals of
        (Inl er, t1, e1, vals1) \<Rightarrow> None
      | (Inr row, t1, e1, vals1) \<Rightarrow> insert_all rf t1 e1 ins)"

text \<open>The engine after a successful \<^verbatim>\<open>Insert\<close> of the tuple \<open>tup\<close> into the relation \<open>r\<close>.\<close>

definition inserted ::
  "('v, 'd) engine \<Rightarrow> ref \<Rightarrow> ('v, 'd) relation \<Rightarrow> ('v, 'd) attribute list \<Rightarrow> 'v tuple
     \<Rightarrow> ('v, 'd) engine" where
  "inserted e rid r attrs1 tup =
     e\<lparr>heap := (heap e)(rid \<mapsto>
          r\<lparr>attributes := attrs1, rows := rows r @ [(next_ref e, tup)],
            indexes := map (index_Add (next_ref e, tup)) (indexes r)\<rparr>),
       next_ref := Suc (next_ref e)\<rparr>"

text \<open>
  The choice of a source in the words of the spec: among the applicable indexes, in
  declaration order, the one with minimum cost, the first of them on a tie.
  \<open>candidates\<close> lists the indexes that \<^verbatim>\<open>recCanUseIndex\<close> finds applicable, with the
  cost and the predicate it returns.
\<close>

fun first_min :: "(int \<times> 'b) list \<Rightarrow> (int \<times> 'b) option" where
  "first_min [] = None"
| "first_min (x # xs) =
     (case first_min xs of
        None \<Rightarrow> Some x
      | Some y \<Rightarrow> if fst y < fst x then Some y else Some x)"

fun candidates ::
  "('v, 'd, 'a) runtime \<Rightarrow> string \<Rightarrow> 'a predicate \<Rightarrow> 'v index list
     \<Rightarrow> (int \<times> 'v index \<times> 'a predicate) list" where
  "candidates rt rname p [] = []"
| "candidates rt rname p (idx # rest) =
     (case recCanUseIndex rt rname idx p of
        None \<Rightarrow> candidates rt rname p rest
      | Some (cost, cp) \<Rightarrow> (cost, idx, cp) # candidates rt rname p rest)"

section \<open>Commit, Rollback and the error latch\<close>

lemma remove_all_Nil: "remove_all cs = []"
  by (induction cs rule: remove_all.induct) (subst remove_all.simps, simp)

lemma rollback_loop_Nil: "rollback_loop [] e = e"
  by (subst rollback_loop.simps) simp

lemma rollback_loop_snoc: "rollback_loop (cs @ [c]) e = rollback_loop cs (rollback_change c e)"
  by (subst rollback_loop.simps) simp

text \<open>The loop of \<^verbatim>\<open>Rollback\<close> undoes the last entry of the log first.\<close>

lemma rollback_loop_foldr: "rollback_loop cs e = foldr rollback_change cs e"
  by (induction cs arbitrary: e rule: rev_induct)
     (simp_all add: rollback_loop_Nil rollback_loop_snoc)

lemma aborted_None: "err t = None \<Longrightarrow> aborted t = None"
  by (simp add: aborted_def)


lemma abort_active:
  "err t = None \<Longrightarrow>
   abort t e er = (t\<lparr>locks := [], changes := [], err := Some er\<rparr>, rollback_loop (changes t) e)"
  by (simp add: abort_def Rollback_def aborted_None unlock_def)


text \<open>
  Claim C8. On a transaction whose latch is not set, \<^verbatim>\<open>Commit\<close> returns the number of
  entries of the change log, leaves the change log empty and the lock table empty, and
  sets the latch to "transaction committed". \<^verbatim>\<open>Commit\<close> returns an error only when the
  latch was set before the call; the error wraps the latched one and the transaction is
  left as it was.
\<close>

theorem Commit_returns_count_and_releases:
  "(err t = None \<longrightarrow>
      Commit t = (Inr (length (changes t)),
                  t\<lparr>locks := [], changes := [], err := Some TransactionCommitted\<rparr>)) \<and>
   (\<forall>er. err t = Some er \<longrightarrow> Commit t = (Inl (TransactionAborted er), t))"
  by (auto simp add: Commit_def aborted_def remove_all_Nil unlock_def Let_def)

theorem Commit_returns_count_and_releases_witness:
  "Commit \<lparr>locks = [(''account'', 0)],
           changes = [ValueChange (Some 1) None 0, ValueChange (Some 2) None 0], err = None\<rparr> =
     (Inr 2, \<lparr>locks = [], changes = [], err = Some TransactionCommitted\<rparr>) \<and>
   Commit \<lparr>locks = [], changes = [], err = Some (SchemaMissing ''none'')\<rparr> =
     (Inl (TransactionAborted (SchemaMissing ''none'')),
      \<lparr>locks = [], changes = [], err = Some (SchemaMissing ''none'')\<rparr>)"
  using Commit_returns_count_and_releases
          [of "\<lparr>locks = [(''account'', 0)],
                changes = [ValueChange (Some 1) None 0, ValueChange (Some 2) None 0], err = None\<rparr>"]
        Commit_returns_count_and_releases
          [of "\<lparr>locks = [], changes = [], err = Some (SchemaMissing ''none'')\<rparr>"]
  by simp

section \<open>Failure of an operation\<close>

lemma same_data_refl: "same_data e e"
  by (simp add: same_data_def)

lemma lock_err: "err (lock t r) = err t"
  by (simp add: lock_def split: option.splits)

lemma lock_changes: "changes (lock t r) = changes t"
  by (simp add: lock_def split: option.splits)

lemma schema_Relation_heap: "schema_Relation e s nm = Inr r \<Longrightarrow> heap e (fst r) = Some (snd r)"
  by (auto simp add: schema_Relation_def split: option.splits)

















section \<open>Rollback and the latch\<close>

lemma Rollback_active:
  "err t = None \<Longrightarrow>
   Rollback t e = (t\<lparr>locks := [], changes := []\<rparr>, rollback_loop (changes t) e)"
  by (simp add: Rollback_def aborted_None unlock_def)

text \<open>\<^verbatim>\<open>Rollback\<close> on a transaction whose latch is not set leaves the latch unset.\<close>

lemma Rollback_keeps_latch_unset: "err t = None \<Longrightarrow> err (fst (Rollback t e)) = None"
  by (simp add: Rollback_active)

text \<open>
  Claim C1, for \<^verbatim>\<open>Rollback\<close>. \<^verbatim>\<open>Commit\<close> and \<^verbatim>\<open>abort\<close> set the latch
  \<^verbatim>\<open>t.err\<close>; \<^verbatim>\<open>Rollback\<close> does not. After \<^verbatim>\<open>Rollback\<close> has returned on the
  transaction that inserted one row into \<open>account\<close>, the transaction holds no lock, its
  latch is still unset, and the next \<^verbatim>\<open>Insert\<close> executes: it returns a row and no
  error.
\<close>

theorem Rollback_does_not_latch:
  "locks (fst (Rollback ex_t1 ex_engine1)) = [] \<and>
   changes (fst (Rollback ex_t1 ex_engine1)) = [] \<and>
   err (fst (Rollback ex_t1 ex_engine1)) = None \<and>
   fst (run_op ex_reflect ex_runtime
          (OpInsert ''main'' ''account'' [(''id'', VInt 2), (''email'', VText ''bar@bar.com'')])
          (fst (Rollback ex_t1 ex_engine1)) (snd (Rollback ex_t1 ex_engine1))) =
     Inserted (2, [VInt 2, VText ''bar@bar.com''])"
  by (simp add: ex_engine1_def ex_t1_def ex_account_def ex_attr_def ex_reflect_def
        NewRelation_def Insert_def aborted_def engine_schema_def schema_Relation_def lock_def
        Rollback_def unlock_def rollback_loop_foldr rollbackValueChange_def Let_def
        split: prod.splits)

section \<open>The lock table and the change log\<close>

text \<open>
  Claim C9, for \<^verbatim>\<open>DropRelation\<close>. \<^verbatim>\<open>Insert\<close> and \<^verbatim>\<open>CreateRelation\<close> call
  \<^verbatim>\<open>t.lock(r)\<close> on the relation whose change they push; \<^verbatim>\<open>DropRelation\<close> pushes its
  change without it. After \<^verbatim>\<open>DropRelation\<close> of \<open>account\<close> in a new transaction the
  change log holds the change of the relation at reference 0 and the lock table is empty.
\<close>

theorem DropRelation_takes_no_lock:
  "fst (DropRelation NewTransaction ex_engine ''main'' ''account'') = None \<and>
   fst (snd (DropRelation NewTransaction ex_engine ''main'' ''account'')) =
     \<lparr>locks = [], changes = [RelationChange ''main'' None (Some 0)], err = None\<rparr>"
  by (simp add: DropRelation_def dropRelation_def NewTransaction_def aborted_def ex_engine_def
        engine_schema_def schema_Relation_def Let_def)

text \<open>
  The lock table is keyed by the bare relation name. After an \<^verbatim>\<open>Insert\<close> into
  \<open>main.account\<close> and one into \<open>other.account\<close> the change log touches the relations
  at references 0 and 1, and the lock table holds the relation at reference 0 only.
\<close>

lemma lock_table_is_keyed_by_relation_name:
  "map_option (\<lambda>r. (locks (fst r), changes (fst r)))
     (insert_all ex_reflect NewTransaction ex_engine5
        [(''main'', ''account'', [(''id'', VInt 1), (''email'', VText ''a'')]),
         (''other'', ''account'', [(''id'', VInt 2)])]) =
   Some ([(''account'', 0)], [ValueChange (Some 2) None 0, ValueChange (Some 3) None 1])"
  by (simp add: ex_engine5_def ex_account_def ex_attr_def ex_reflect_def NewRelation_def
        NewTransaction_def Insert_def aborted_def engine_schema_def schema_Relation_def lock_def
        index_Add_def Let_def)

section \<open>The choice of the sources\<close>

lemma first_min_least:
  "first_min xs = Some y \<Longrightarrow> y \<in> set xs \<and> (\<forall>x \<in> set xs. fst y \<le> fst x)"
proof (induction xs arbitrary: y)
  case Nil
  then show ?case by simp
next
  case (Cons a xs)
  show ?case
  proof (cases "first_min xs")
    case None
    then have "xs = []" by (cases xs) (auto split: option.splits if_splits)
    with Cons.prems None show ?thesis by simp
  next
    case (Some z)
    note z = Cons.IH [OF Some]
    show ?thesis
    proof (cases "fst z < fst a")
      case True
      with Cons.prems Some have "y = z" by simp
      with z True show ?thesis by auto
    next
      case False
      with Cons.prems Some have "y = a" by simp
      with z False show ?thesis by fastforce
    qed
  qed
qed

lemma first_min_earliest:
  "\<forall>x \<in> set pre. fst y < fst x \<Longrightarrow> \<forall>x \<in> set post. fst y \<le> fst x \<Longrightarrow>
   first_min (pre @ y # post) = Some y"
proof (induction pre)
  case Nil
  then show ?case
    using first_min_least [of post] by (fastforce split: option.splits)
next
  case (Cons x pre)
  then show ?case by simp
qed

text \<open>
  The loop over the indexes of one relation, for costs above zero and no error of
  \<^verbatim>\<open>NewHashIndexSource\<close>: the index of minimum cost replaces the source when the loop
  starts with \<^verbatim>\<open>sourceCost\<close> zero or above that minimum, and nothing changes otherwise.
\<close>

lemma candidates_positive:
  "\<forall>idx \<in> set idxs. \<forall>c cp. recCanUseIndex rt rname idx p = Some (c, cp) \<longrightarrow> 0 < c \<Longrightarrow>
   \<forall>x \<in> set (candidates rt rname p idxs). 0 < fst x"
  by (induction idxs) (auto split: option.splits)

lemma first_min_positive:
  "\<forall>x \<in> set xs. 0 < fst x \<Longrightarrow> first_min xs = Some y \<Longrightarrow> 0 < fst y"
  by (induction xs arbitrary: y) (auto split: option.splits if_splits)

lemma index_loop_first_min:
  assumes "hashIndexSourceError rt = (\<lambda>idx p. None)"
    and "\<forall>idx \<in> set idxs. \<forall>c cp. recCanUseIndex rt rname idx p = Some (c, cp) \<longrightarrow> 0 < c"
  shows "index_loop rt rname p idxs (sources, sc) =
     (case first_min (candidates rt rname p idxs) of
        None \<Rightarrow> (sources, sc)
      | Some (c, idx, cp) \<Rightarrow>
          if sc = 0 \<or> c < sc
          then (AList.update rname (HashIndexSource idx cp) sources, c)
          else (sources, sc))"
  using assms(2)
proof (induction idxs arbitrary: sources sc)
  case Nil
  then show ?case by simp
next
  case (Cons idx rest)
  have pos: "\<forall>i \<in> set rest. \<forall>c cp. recCanUseIndex rt rname i p = Some (c, cp) \<longrightarrow> 0 < c"
    using Cons.prems by simp
  note IH = Cons.IH [OF pos]
  show ?case
  proof (cases "recCanUseIndex rt rname idx p")
    case None
    then show ?thesis using IH by simp
  next
    case (Some found)
    obtain c cp where f: "found = (c, cp)" by (cases found)
    have cpos: "0 < c" using Cons.prems Some f by simp
    have src: "NewHashIndexSource rt idx cp = Inr (HashIndexSource idx cp)"
      by (simp add: NewHashIndexSource_def assms(1))
    show ?thesis
    proof (cases "sc = 0 \<or> c < sc")
      case True
      then show ?thesis
        using Some f src cpos IH [of "AList.update rname (HashIndexSource idx cp) sources" c]
        by (auto split: option.splits)
    next
      case False
      then show ?thesis
        using Some f IH [of sources sc]
        by (auto split: option.splits)
    qed
  qed
qed

text \<open>
  For a query over one relation the sources are chosen as the spec says: the applicable
  index of minimum cost, the first on a tie, and the sequential scan when no index is
  applicable.
\<close>

lemma choose_sources_single_relation:
  assumes "hashIndexSourceError rt = (\<lambda>idx p. None)"
    and "\<forall>idx \<in> set (indexes r). \<forall>c cp. recCanUseIndex rt (rel_name r) idx p = Some (c, cp) \<longrightarrow> 0 < c"
    and "rangeOrder rt [(k, rid, r)] = [(k, rid, r)]"
  shows "choose_sources rt p [(k, rid, r)] =
     (case first_min (candidates rt (rel_name r) p (indexes r)) of
        None \<Rightarrow> [(rel_name r, SeqScan rid)]
      | Some (c, idx, cp) \<Rightarrow> [(rel_name r, HashIndexSource idx cp)])"
  using index_loop_first_min [OF assms(1,2), of "[]" 0]
  by (auto simp add: choose_sources_def assms(3) split: option.splits)


text \<open>
  Claim C2, for a query over two relations. The query \<open>ex_pred\<close> locks \<open>a\<close> and \<open>b\<close>.
  The only index of \<open>b\<close> can source the predicate of the query, at cost 1
  (\<^verbatim>\<open>CanSourceWith\<close> says so on the whole predicate, and so does \<^verbatim>\<open>recCanUseIndex\<close>),
  and the source chosen for \<open>b\<close> is the sequential scan: \<^verbatim>\<open>sourceCost\<close> is declared
  before the loop over the relations, it holds the cost 1 of the index chosen for \<open>a\<close>
  when the loop reaches \<open>b\<close>, and \<open>1 < 1\<close> is false.
\<close>

theorem source_choice_skips_applicable_index:
  "fst (snd (recLock NewTransaction ex_engine2 ''main'' [] ex_pred)) = ex_relations \<and>
   indexes ex_rel_b = [ex_pk_b] \<and>
   canSourceWith ex_runtime ex_pk_b ex_pred = (True, 1) \<and>
   recCanUseIndex ex_runtime ''b'' ex_pk_b ex_pred = Some (1, ex_pred) \<and>
   choose_sources ex_runtime ex_pred ex_relations =
     [(''a'', HashIndexSource ex_pk_a ex_pred), (''b'', SeqScan 1)]"
  by (simp add: ex_rel_a_def ex_rel_b_def ex_pk_a_def ex_pk_b_def ex_engine2_def ex_pred_def
        ex_relations_def ex_attr_def NewRelation_def NewHashIndex_def ex_runtime_def
        NewTransaction_def engine_schema_def schema_Relation_def lock_def choose_sources_def
        NewHashIndexSource_def Let_def)

text \<open>
  Claim C3. The same engine, selectors, predicate and joiners, planned twice: once with
  the loop over the map \<^verbatim>\<open>relations\<close> visiting \<open>a\<close> before \<open>b\<close>, once visiting
  \<open>b\<close> before \<open>a\<close>. The scanner of \<open>b\<close> reads a sequential scan in the first tree
  and the hash index in the second.
\<close>

theorem planner_depends_on_range_order:
  "(case planner ex_runtime ex_engine2 [Selector ''a'' ''id''] ex_pred ex_joiners ex_relations of
      Inl er \<Rightarrow> None
    | Inr n \<Rightarrow> map_option sc_source (map_of (sn_scanners n) ''b'')) = Some (Some (SeqScan 1)) \<and>
   (case planner (ex_runtime\<lparr>rangeOrder := rev\<rparr>) ex_engine2 [Selector ''a'' ''id''] ex_pred
           ex_joiners ex_relations of
      Inl er \<Rightarrow> None
    | Inr n \<Rightarrow> map_option sc_source (map_of (sn_scanners n) ''b'')) =
     Some (Some (HashIndexSource ex_pk_b ex_pred))"
  by (simp add: ex_rel_a_def ex_rel_b_def ex_pk_b_def ex_engine2_def ex_pred_def ex_joiners_def
        ex_relations_def ex_attr_def NewRelation_def NewHashIndex_def ex_runtime_def
        planner_def choose_sources_def NewHashIndexSource_def NewRelationScanner_def Let_def)

section \<open>The column policy of Insert\<close>

lemma after_prefix_continue:
  "after_prefix visited tup (policy_continue v a r) = after_prefix (visited @ [a]) (tup @ [v]) r"
  by (cases r) (auto simp add: after_prefix_def policy_continue_def split: sum.splits)

lemma insert_loop_policy:
  "insert_loop rf rel attrs visited tup vals = after_prefix visited tup (column_policy rf rel attrs vals)"
proof (induction attrs arbitrary: visited tup vals)
  case Nil
  then show ?case by (simp add: after_prefix_def)
next
  case (Cons attr rest)
  show ?case
  proof (cases "map_of vals (attr_name attr)")
    case None
    then show ?thesis
      using Cons.IH
      by (cases "defaultValue attr")
         (simp_all add: after_prefix_continue, simp add: after_prefix_def)
  next
    case (Some val)
    then show ?thesis
      using Cons.IH
      by (simp add: after_prefix_continue Let_def) (simp add: after_prefix_def)
  qed
qed

lemma insert_loop_is_column_policy:
  "insert_loop rf rel attrs [] [] vals = column_policy rf rel attrs vals"
  by (simp add: insert_loop_policy after_prefix_def split: prod.splits sum.splits)










text \<open>
  \<^verbatim>\<open>Insert\<close> on a transaction whose latch is not set and a relation that exists, in
  terms of the column policy.
\<close>

lemma Insert_active_found:
  assumes "err t = None" and "engine_schema e sch = Inr s" and "schema_Relation e s rel = Inr r"
    and "column_policy rf rel (attributes (snd r)) vals = (res, attrs1, vals1)"
  shows "Insert rf t e sch rel vals =
     (let e1 = e\<lparr>heap := (heap e)(fst r \<mapsto> (snd r)\<lparr>attributes := attrs1\<rparr>)\<rparr> in
      case res of
        Inl er \<Rightarrow>
          (Inl er, \<lparr>locks = [], changes = [], err = Some er\<rparr>, rollback_loop (changes t) e1, vals1)
      | Inr tup \<Rightarrow>
          (case vals1 of
             kv # others \<Rightarrow>
               (Inl (AttributeMissing (fst kv) rel),
                \<lparr>locks = [], changes = [], err = Some (AttributeMissing (fst kv) rel)\<rparr>,
                rollback_loop (changes t) e1, vals1)
           | [] \<Rightarrow>
               (Inr (next_ref e, tup),
                (lock t r)\<lparr>changes := changes t @ [ValueChange (Some (next_ref e)) None (fst r)]\<rparr>,
                e\<lparr>heap := (heap e)(fst r \<mapsto>
                     (snd r)\<lparr>attributes := attrs1,
                             rows := rows (snd r) @ [(next_ref e, tup)],
                             indexes := map (index_Add (next_ref e, tup)) (indexes (snd r))\<rparr>),
                  next_ref := Suc (next_ref e)\<rparr>,
                [])))"
proof -
  have ab: "abort (lock t r) e' er =
              (\<lparr>locks = [], changes = [], err = Some er\<rparr>, rollback_loop (changes t) e')" for e' er
    by (simp add: abort_active lock_err lock_changes assms(1))
  show ?thesis
    using assms
    by (cases res; cases vals1)
       (auto simp add: Insert_def aborted_None insert_loop_is_column_policy ab lock_changes Let_def)
qed





section \<open>The values map of Insert\<close>







section \<open>Insert with an unknown key\<close>




section \<open>Insert and Rollback\<close>

lemma same_data_sym: "same_data a b \<Longrightarrow> same_data b a"
  by (simp add: same_data_def)

lemma same_data_trans: "same_data a b \<Longrightarrow> same_data b c \<Longrightarrow> same_data a c"
  by (simp add: same_data_def)

lemma same_data_heap:
  "same_data a b \<Longrightarrow> heap a rid = Some ra \<Longrightarrow>
   \<exists>rb. heap b rid = Some rb \<and> rel_name rb = rel_name ra \<and> rows rb = rows ra \<and>
        indexes rb = indexes ra"
proof -
  assume sd: "same_data a b" and ha: "heap a rid = Some ra"
  from sd have "map_option rel_data (heap a rid) = map_option rel_data (heap b rid)"
    unfolding same_data_def by blast
  with ha obtain rb where "heap b rid = Some rb" and "rel_data rb = rel_data ra"
    by (cases "heap b rid") auto
  then show ?thesis by (auto simp add: rel_data_def)
qed

lemma same_data_heap_None: "same_data a b \<Longrightarrow> heap a rid = None \<Longrightarrow> heap b rid = None"
proof -
  assume sd: "same_data a b" and ha: "heap a rid = None"
  from sd have "map_option rel_data (heap a rid) = map_option rel_data (heap b rid)"
    unfolding same_data_def by blast
  with ha show ?thesis by simp
qed

lemma same_data_schema_set: "same_data a b \<Longrightarrow> same_data (schema_set a sch nm v) (schema_set b sch nm v)"
  by (auto simp add: same_data_def schema_set_def split: option.splits)

lemma rollbackValueChange_cong:
  assumes "same_data a b"
  shows "same_data (rollbackValueChange cur old lst a) (rollbackValueChange cur old lst b)"
proof (cases "\<exists>el. cur = Some el \<and> old = None")
  case False
  then show ?thesis
    using assms by (auto simp add: rollbackValueChange_def split: option.splits)
next
  case True
  then obtain el where c: "cur = Some el" "old = None" by auto
  show ?thesis
  proof (cases "heap a lst")
    case None
    then show ?thesis
      using assms same_data_heap_None [OF assms None] c by (simp add: rollbackValueChange_def)
  next
    case (Some ra)
    then obtain rb where rb: "heap b lst = Some rb" "rel_name rb = rel_name ra"
        "rows rb = rows ra" "indexes rb = indexes ra"
      using same_data_heap [OF assms] by blast
    show ?thesis
      using assms c Some rb
      by (simp add: rollbackValueChange_def same_data_def rel_data_def)
  qed
qed

lemma rollbackRelationChange_cong:
  assumes "same_data a b"
  shows "same_data (rollbackRelationChange sch cur old a) (rollbackRelationChange sch cur old b)"
proof -
  have one: "same_data (case heap a rid of None \<Rightarrow> a | Some r \<Rightarrow> schema_set a sch (rel_name r) v)
                       (case heap b rid of None \<Rightarrow> b | Some r \<Rightarrow> schema_set b sch (rel_name r) v)"
    for rid v
  proof (cases "heap a rid")
    case None
    then show ?thesis using assms same_data_heap_None [OF assms None] by simp
  next
    case (Some ra)
    then obtain rb where "heap b rid = Some rb" "rel_name rb = rel_name ra"
      using same_data_heap [OF assms] by blast
    then show ?thesis using Some same_data_schema_set [OF assms] by simp
  qed
  show ?thesis
    using assms one
    by (cases cur; cases old) (simp_all add: rollbackRelationChange_def)
qed

lemma rollback_change_cong:
  "same_data a b \<Longrightarrow> same_data (rollback_change c a) (rollback_change c b)"
  by (cases c) (simp_all add: rollbackValueChange_cong rollbackRelationChange_cong)

lemma foldr_rollback_cong:
  "same_data a b \<Longrightarrow> same_data (foldr rollback_change cs a) (foldr rollback_change cs b)"
  by (induction cs arbitrary: a b rule: rev_induct) (simp_all add: rollback_change_cong)


lemma Insert_success_shape:
  assumes "err t = None" and "Insert rf t e sch rel vals = (Inr row, t1, e1, vals1)"
  shows "\<exists>rid r attrs1 tup.
           heap e rid = Some r \<and> row = (next_ref e, tup) \<and> err t1 = None \<and>
           changes t1 = changes t @ [ValueChange (Some (next_ref e)) None rid] \<and>
           e1 = inserted e rid r attrs1 tup"
proof (cases "engine_schema e sch")
  case (Inl er)
  then show ?thesis
    using assms by (simp add: Insert_def aborted_None split: prod.splits)
next
  case s: (Inr s)
  show ?thesis
  proof (cases "schema_Relation e s rel")
    case (Inl er)
    then show ?thesis
      using assms s by (simp add: Insert_def aborted_None split: prod.splits)
  next
    case r: (Inr r)
    obtain res attrs1 pvals where
      cp: "column_policy rf rel (attributes (snd r)) vals = (res, attrs1, pvals)"
      by (cases "column_policy rf rel (attributes (snd r)) vals")
    note ins = Insert_active_found [OF assms(1) s r cp]
    have h: "heap e (fst r) = Some (snd r)" by (rule schema_Relation_heap [OF r])
    show ?thesis
    proof (cases res)
      case (Inl er)
      then show ?thesis using ins assms(2) by (simp add: Let_def)
    next
      case (Inr tup)
      show ?thesis
      proof (cases pvals)
        case (Cons kv others)
        then show ?thesis using ins assms(2) Inr by (simp add: Let_def)
      next
        case Nil
        have "row = (next_ref e, tup)" and "err t1 = None"
          and "changes t1 = changes t @ [ValueChange (Some (next_ref e)) None (fst r)]"
          and "e1 = inserted e (fst r) (snd r) attrs1 tup"
          using ins assms Inr Nil
          by (auto simp add: Let_def lock_err lock_changes inserted_def)
        with h show ?thesis by blast
      qed
    qed
  qed
qed

lemma index_Remove_Add:
  "\<forall>row \<in> set (entries idx). fst row < n \<Longrightarrow> index_Remove n (index_Add (n, tup) idx) = idx"
  by (simp add: index_Remove_def index_Add_def filter_id_conv less_imp_neq)

lemma undo_inserted:
  assumes "wf_refs e" and "heap e rid = Some r"
  shows "same_data (rollback_change (ValueChange (Some (next_ref e)) None rid)
                      (inserted e rid r attrs1 tup)) e"
proof -
  have rws: "\<forall>row \<in> set (rows r). fst row < next_ref e"
    and idxs: "\<forall>idx \<in> set (indexes r). \<forall>row \<in> set (entries idx). fst row < next_ref e"
    using assms by (auto simp add: wf_refs_def)
  have f: "filter (\<lambda>t. fst t \<noteq> next_ref e) (rows r) = rows r"
    using rws by (simp add: filter_id_conv less_imp_neq)
  have m: "map (index_Remove (next_ref e)) (map (index_Add (next_ref e, tup)) (indexes r)) =
             indexes r"
    using idxs by (simp add: map_idI index_Remove_Add)
  show ?thesis
    using assms(2) f m
    by (simp add: inserted_def rollbackValueChange_def same_data_def rel_data_def)
qed

lemma wf_refs_inserted:
  assumes "wf_refs e" and "heap e rid = Some r"
  shows "wf_refs (inserted e rid r attrs1 tup)"
  using assms
  by (fastforce simp add: wf_refs_def inserted_def index_Add_def less_Suc_eq)

lemma insert_all_rollback:
  "insert_all rf t e ins = Some (t1, e1) \<Longrightarrow> err t = None \<Longrightarrow> wf_refs e \<Longrightarrow>
   \<exists>new. changes t1 = changes t @ new \<and> err t1 = None \<and> length new = length ins \<and>
         same_data (foldr rollback_change new e1) e"
proof (induction ins arbitrary: t e)
  case Nil
  then show ?case by (simp add: same_data_refl)
next
  case (Cons i ins)
  obtain sch rel vals where i: "i = (sch, rel, vals)" by (cases i)
  obtain res t' e' vals' where step: "Insert rf t e sch rel vals = (res, t', e', vals')"
    by (cases "Insert rf t e sch rel vals")
  from Cons.prems(1) i step obtain row where res: "res = Inr row"
    and rest: "insert_all rf t' e' ins = Some (t1, e1)"
    by (cases res) simp_all
  from Insert_success_shape [OF Cons.prems(2) step [unfolded res]]
  obtain rid r attrs1 tup where h: "heap e rid = Some r" and t': "err t' = None"
    and ch: "changes t' = changes t @ [ValueChange (Some (next_ref e)) None rid]"
    and e': "e' = inserted e rid r attrs1 tup"
    by blast
  have wf': "wf_refs e'" unfolding e' by (rule wf_refs_inserted [OF Cons.prems(3) h])
  from Cons.IH [OF rest t' wf'] obtain new where
    n1: "changes t1 = changes t' @ new" and n2: "err t1 = None" and n3: "length new = length ins"
    and n4: "same_data (foldr rollback_change new e1) e'"
    by blast
  let ?c = "ValueChange (Some (next_ref e)) None rid"
  have "same_data (rollback_change ?c (foldr rollback_change new e1)) (rollback_change ?c e')"
    by (rule rollback_change_cong [OF n4])
  moreover have "same_data (rollback_change ?c e') e"
    unfolding e' by (rule undo_inserted [OF Cons.prems(3) h])
  ultimately have "same_data (foldr rollback_change (?c # new) e1) e"
    by (auto intro: same_data_trans)
  then show ?case
    using n1 n2 n3 ch by (intro exI [of _ "?c # new"]) simp
qed

text \<open>
  Claim C5. In an engine whose references are allocated in order, after any sequence of
  successful inserts in a transaction that started with an empty change log,
  \<^verbatim>\<open>Rollback\<close> undoes the change log from its last entry to its first (one entry for
  each insert) and leaves every relation with the row list and the indexes it had before
  the transaction: the same tuples in the same order. The undo of one entry is modelled
  from the spec.
\<close>

theorem Insert_then_Rollback_restores:
  assumes "wf_refs e" and "err t = None" and "changes t = []"
    and "insert_all rf t e ins = Some (t1, e1)"
  shows "snd (Rollback t1 e1) = foldr rollback_change (changes t1) e1 \<and>
         length (changes t1) = length ins \<and>
         same_data (snd (Rollback t1 e1)) e \<and>
         (\<forall>rid. map_option rows (heap (snd (Rollback t1 e1)) rid) = map_option rows (heap e rid) \<and>
                map_option indexes (heap (snd (Rollback t1 e1)) rid) =
                  map_option indexes (heap e rid))"
proof -
  from insert_all_rollback [OF assms(4,2,1)] assms(3) obtain new where
    n1: "changes t1 = new" and n2: "err t1 = None" and n3: "length new = length ins"
    and n4: "same_data (foldr rollback_change new e1) e"
    by auto
  have rb: "snd (Rollback t1 e1) = foldr rollback_change (changes t1) e1"
    using n2 by (simp add: Rollback_def aborted_None rollback_loop_foldr)
  have sd: "same_data (snd (Rollback t1 e1)) e" using rb n1 n4 by simp
  have "map_option rows (heap (snd (Rollback t1 e1)) rid) = map_option rows (heap e rid) \<and>
        map_option indexes (heap (snd (Rollback t1 e1)) rid) = map_option indexes (heap e rid)"
    for rid
  proof (cases "heap (snd (Rollback t1 e1)) rid")
    case None
    then show ?thesis using same_data_heap_None [OF sd None] by simp
  next
    case (Some ra)
    then show ?thesis using same_data_heap [OF sd Some] by auto
  qed
  then show ?thesis using rb sd n1 n3 by simp
qed


theorem Insert_then_Rollback_restores_witness:
  "wf_refs ex_engine4 \<and> err NewTransaction = None \<and> changes NewTransaction = [] \<and>
   (\<exists>t1 e1. insert_all ex_reflect NewTransaction ex_engine4 ex_inserts = Some (t1, e1) \<and>
      length (changes t1) = 3 \<and>
      map_option rows (heap e1 0) = Some [(2, [VInt 10]), (3, [VInt 11]), (5, [VInt 12])] \<and>
      map_option rows (heap (snd (Rollback t1 e1)) 0) = Some [(2, [VInt 10])] \<and>
      map_option indexes (heap (snd (Rollback t1 e1)) 0) =
        Some [ex_pk_a\<lparr>entries := [(2, [VInt 10])]\<rparr>] \<and>
      map_option rows (heap (snd (Rollback t1 e1)) 1) = Some [])"
proof -
  have h1: "wf_refs ex_engine4"
    by (simp add: wf_refs_def ex_engine4_def ex_rel_a_def ex_rel_b_def ex_pk_a_def NewRelation_def
          NewHashIndex_def ex_attr_def Let_def)
  have h2: "err NewTransaction = None" and h3: "changes NewTransaction = []"
    by (simp_all add: NewTransaction_def)
  have "\<exists>t1 e1. insert_all ex_reflect NewTransaction ex_engine4 ex_inserts = Some (t1, e1) \<and>
          map_option rows (heap e1 0) = Some [(2, [VInt 10]), (3, [VInt 11]), (5, [VInt 12])]"
    by (simp add: ex_inserts_def ex_engine4_def ex_rel_a_def ex_rel_b_def ex_pk_a_def ex_attr_def
          ex_reflect_def NewRelation_def NewHashIndex_def NewTransaction_def Insert_def
          aborted_def engine_schema_def schema_Relation_def lock_def index_Add_def Let_def)
  then obtain t1 e1 where
    h4: "insert_all ex_reflect NewTransaction ex_engine4 ex_inserts = Some (t1, e1)"
    and r1: "map_option rows (heap e1 0) = Some [(2, [VInt 10]), (3, [VInt 11]), (5, [VInt 12])]"
    by blast
  note c = Insert_then_Rollback_restores [OF h1 h2 h3 h4]
  have len: "length (changes t1) = 3" using c by (simp add: ex_inserts_def)
  have all: "map_option rows (heap (snd (Rollback t1 e1)) rid) = map_option rows (heap ex_engine4 rid) \<and>
             map_option indexes (heap (snd (Rollback t1 e1)) rid) =
               map_option indexes (heap ex_engine4 rid)" for rid
    using c by blast
  have a0: "map_option rows (heap (snd (Rollback t1 e1)) 0) = Some [(2, [VInt 10])]"
    using all [of 0] by (simp add: ex_engine4_def)
  have b0: "map_option indexes (heap (snd (Rollback t1 e1)) 0) =
              Some [ex_pk_a\<lparr>entries := [(2, [VInt 10])]\<rparr>]"
    using all [of 0] by (simp add: ex_engine4_def)
  have a1: "map_option rows (heap (snd (Rollback t1 e1)) 1) = Some []"
    using all [of 1] by (simp add: ex_engine4_def ex_rel_b_def NewRelation_def Let_def)
  show ?thesis
    using h1 h2 h3 h4 len r1 a0 b0 a1 by blast
qed

end
